theory Spec2Isabelle
  imports Main "HOL-Library.AList"
begin

section \<open>The inspection workflow of \<open>inspection-stack.ts\<close>\<close>

text \<open>
  The source declares a Step Functions state machine: five \<open>EcsRunTask\<close> states chained
  with \<open>Chain.start(...).next(...)\<close> and wrapped in a \<open>StateMachine\<close> with a timeout of
  thirty minutes. Each state names a Fargate task definition, a container, a list of
  environment overrides read from the state's input by \<open>JsonPath.stringAt\<close>, an
  \<open>inputPath\<close> and a \<open>resultPath\<close>. No state adds a retrier or a catcher.

  The declarations are embedded as records, and the fields the source sets are given
  the meaning the Amazon States Language gives them: \<open>inputPath\<close> selects the part of
  the state's input the task sees, the environment overrides are resolved against that
  selection, \<open>resultPath\<close> says where the task's result goes in the state's input, and a
  state that fails with no retrier and no catcher ends the execution.
\<close>

subsection \<open>JSON documents and paths\<close>

datatype json = JString string | JObject "(string \<times> json) list"

text \<open>The two forms of path the source writes: \<open>'$'\<close> and \<open>'$.Key'\<close>.\<close>

datatype json_path = Root | Field string

fun select_path :: "json_path \<Rightarrow> json \<Rightarrow> json option" where
  "select_path Root j = Some j"
| "select_path (Field k) (JObject kvs) = map_of kvs k"
| "select_path (Field k) (JString s) = None"

text \<open>
  \<open>sfn.JsonPath.stringAt(p)\<close>: the string found at \<open>p\<close> in the input. The documents
  the workflow is given are flat, every value a string (the sample input of the README,
  the scenario of the specification). The source does not say what the service does
  with a value that is not a string; the model lets such a path not resolve, and no
  property below that speaks of a missing key rests on that case: it asks for the path
  to be absent (\<open>select_path p j = None\<close>).
\<close>

fun stringAt :: "json_path \<Rightarrow> json \<Rightarrow> string option" where
  "stringAt p j =
     (case select_path p j of
        Some (JString s) \<Rightarrow> Some s
      | Some (JObject kvs) \<Rightarrow> None
      | None \<Rightarrow> None)"

text \<open>\<open>resultPath\<close>: \<open>sfn.JsonPath.DISCARD\<close>, or a path at which the result is stored.\<close>

datatype result_path = DISCARD | ResultAt json_path

fun apply_result_path :: "result_path \<Rightarrow> json \<Rightarrow> json \<Rightarrow> json option" where
  "apply_result_path DISCARD raw res = Some raw"
| "apply_result_path (ResultAt Root) raw res = Some res"
| "apply_result_path (ResultAt (Field k)) (JObject kvs) res =
     Some (JObject (AList.update k res kvs))"
| "apply_result_path (ResultAt (Field k)) (JString s) res = None"

subsection \<open>Task definitions, containers and states\<close>

record fargate_task_definition =
  memoryLimitMiB :: nat
  cpu :: nat
  ephemeralStorageGiB :: nat

record container_definition =
  container_id :: string
  container_image :: string
  container_environment :: "(string \<times> string) list"
  container_secrets :: "(string \<times> string) list"

record ecs_run_task =
  state_id :: string
  taskDefinition :: fargate_task_definition
  containerDefinition :: container_definition
  environment :: "(string \<times> json_path) list"
  inputPath :: json_path
  resultPath :: result_path

record state_machine =
  sm_definition :: "ecs_run_task list"
  timeout_seconds :: nat

definition minutes :: "nat \<Rightarrow> nat" where
  "minutes n = n * 60"

text \<open>
  \<open>sfn.Chain.start(s)\<close> and \<open>chain.next(s)\<close>, as the source calls them: once each, on
  five different states, each appended to the chain built so far. A chain is the list of
  its states. Adding a state that is already part of the chain is not modelled (the
  source never does it), and no property below uses these two functions for anything
  but the chain the source builds.
\<close>

definition chain_start :: "ecs_run_task \<Rightarrow> ecs_run_task list" where
  "chain_start s = [s]"

definition chain_next :: "ecs_run_task list \<Rightarrow> ecs_run_task \<Rightarrow> ecs_run_task list" where
  "chain_next c s = c @ [s]"

subsection \<open>The declarations of the source\<close>

text \<open>
  \<open>vectorDB.attrCollectionEndpoint\<close> and \<open>cfnDatabase.ref\<close> are deploy-time references;
  they are kept as the expressions the source writes.
\<close>

definition subsamplerTask :: fargate_task_definition where
  "subsamplerTask = \<lparr>memoryLimitMiB = 8192, cpu = 2048, ephemeralStorageGiB = 200\<rparr>"

definition inspectTask :: fargate_task_definition where
  "inspectTask = \<lparr>memoryLimitMiB = 8192, cpu = 2048, ephemeralStorageGiB = 200\<rparr>"

definition dupdetectTask :: fargate_task_definition where
  "dupdetectTask = \<lparr>memoryLimitMiB = 8192, cpu = 2048, ephemeralStorageGiB = 200\<rparr>"

definition curatorTask :: fargate_task_definition where
  "curatorTask = \<lparr>memoryLimitMiB = 8192, cpu = 2048, ephemeralStorageGiB = 200\<rparr>"

definition subsamplerContainer :: container_definition where
  "subsamplerContainer =
     \<lparr>container_id = ''SubsamplerWorker'',
      container_image = ''fargate/subsampler'',
      container_environment = [],
      container_secrets = [(''NUM_ROWS'', ''NumRowsParameter'')]\<rparr>"

definition inspectContainer :: container_definition where
  "inspectContainer =
     \<lparr>container_id = ''InspectWorker'',
      container_image = ''fargate/inspector'',
      container_environment = [],
      container_secrets = []\<rparr>"

definition dupdetectContainer :: container_definition where
  "dupdetectContainer =
     \<lparr>container_id = ''DupdetectWorker'',
      container_image = ''fargate/dupdetector'',
      container_environment =
        [(''OSS_DOMAIN_ENDPOINT'', ''vectorDB.attrCollectionEndpoint''),
         (''OSS_INDEX_NAME'', ''embeddings'')],
      container_secrets = []\<rparr>"

definition curatorContainer :: container_definition where
  "curatorContainer =
     \<lparr>container_id = ''CuratorWorker'',
      container_image = ''fargate/curator'',
      container_environment =
        [(''OSS_DOMAIN_ENDPOINT'', ''vectorDB.attrCollectionEndpoint''),
         (''OSS_INDEX_NAME'', ''embeddings''),
         (''GLUE_CATALOG'', ''cfnDatabase.ref'')],
      container_secrets = [(''NUM_ROWS'', ''NumRowsParameter'')]\<rparr>"

definition runSubsamplerTaskFirstPass :: ecs_run_task where
  "runSubsamplerTaskFirstPass =
     \<lparr>state_id = ''SubsamplerFirstPass'',
      taskDefinition = subsamplerTask,
      containerDefinition = subsamplerContainer,
      environment =
        [(''S3_INPUT'', Field ''S3Input''),
         (''S3_OUTPUT'', Field ''S3OutputFirst'')],
      inputPath = Root,
      resultPath = DISCARD\<rparr>"

definition runSubsamplerTaskSecondPass :: ecs_run_task where
  "runSubsamplerTaskSecondPass =
     \<lparr>state_id = ''SubsamplerSecondPass'',
      taskDefinition = subsamplerTask,
      containerDefinition = subsamplerContainer,
      environment =
        [(''S3_INPUT'', Field ''S3Input''),
         (''S3_OUTPUT'', Field ''S3OutputSecond'')],
      inputPath = Root,
      resultPath = DISCARD\<rparr>"

definition runInspectTask :: ecs_run_task where
  "runInspectTask =
     \<lparr>state_id = ''RunInspectTask'',
      taskDefinition = inspectTask,
      containerDefinition = inspectContainer,
      environment =
        [(''S3_INPUT_1'', Field ''S3OutputFirst''),
         (''S3_INPUT_2'', Field ''S3OutputSecond''),
         (''S3_OUTPUT_1'', Field ''S3OutputSchema1''),
         (''S3_OUTPUT_2'', Field ''S3OutputSchema2'')],
      inputPath = Root,
      resultPath = DISCARD\<rparr>"

definition runDupdetectTask :: ecs_run_task where
  "runDupdetectTask =
     \<lparr>state_id = ''RunDupdetectTask'',
      taskDefinition = dupdetectTask,
      containerDefinition = dupdetectContainer,
      environment =
        [(''S3_INPUT'', Field ''S3OutputSchema2''),
         (''S3_OUTPUT'', Field ''S3OutputDupRank''),
         (''S3_OUTPUT_DESC'', Field ''S3OutputTableDesc'')],
      inputPath = Root,
      resultPath = DISCARD\<rparr>"

definition runCuratorTask :: ecs_run_task where
  "runCuratorTask =
     \<lparr>state_id = ''RunCuratorTask'',
      taskDefinition = curatorTask,
      containerDefinition = curatorContainer,
      environment =
        [(''S3_INPUT_DATA'', Field ''S3Input''),
         (''S3_INPUT_SCHEMA'', Field ''S3OutputSchema2''),
         (''S3_INPUT_DESC'', Field ''S3OutputTableDesc''),
         (''S3_INPUT_DQDL'', Field ''S3InputDQDL''),
         (''S3_OUTPUT_DQDL'', Field ''S3OutputDQDL''),
         (''TABLE_NAME'', Field ''TableName'')],
      inputPath = Root,
      resultPath = DISCARD\<rparr>"

definition wf_chain :: "ecs_run_task list" where
  "wf_chain =
     chain_next (chain_next (chain_next (chain_next
       (chain_start runSubsamplerTaskFirstPass)
       runSubsamplerTaskSecondPass)
       runInspectTask)
       runDupdetectTask)
       runCuratorTask"

definition sfnInspector :: state_machine where
  "sfnInspector = \<lparr>sm_definition = wf_chain, timeout_seconds = minutes 30\<rparr>"

subsection \<open>Executing a chain\<close>

text \<open>
  The task launcher is outside the repository: it is a parameter, a function from the
  state being run and its resolved environment to what the launched job reports.
\<close>

datatype task_result = Succeeded json | Failed string

type_synonym launcher = "ecs_run_task \<Rightarrow> (string \<times> string) list \<Rightarrow> task_result"

text \<open>One entry of the execution history: the state launched, the input it saw, its environment.\<close>

record launch =
  launch_state :: string
  launch_input :: json
  launch_env :: "(string \<times> string) list"

datatype cause = TaskFailed string | PathNotFound json_path | ResultPathMatchFailure

datatype execution_status = SUCCEEDED | FAILED string cause

record execution =
  status :: execution_status
  output_doc :: json
  launched :: "launch list"

fun resolve_environment ::
  "(string \<times> json_path) list \<Rightarrow> json \<Rightarrow> json_path + (string \<times> string) list" where
  "resolve_environment [] j = Inr []"
| "resolve_environment ((n, p) # es) j =
     (case stringAt p j of
        None \<Rightarrow> Inl p
      | Some v \<Rightarrow>
          (case resolve_environment es j of
             Inl q \<Rightarrow> Inl q
           | Inr vs \<Rightarrow> Inr ((n, v) # vs)))"

text \<open>
  One state: either the execution stops there (with the launch, if the task was
  launched at all), or the next state gets a document.
\<close>

datatype step = Stop cause "launch list" | Next json launch

definition run_task :: "launcher \<Rightarrow> ecs_run_task \<Rightarrow> json \<Rightarrow> step" where
  "run_task L t doc =
     (case select_path (inputPath t) doc of
        None \<Rightarrow> Stop (PathNotFound (inputPath t)) []
      | Some inp \<Rightarrow>
          (case resolve_environment (environment t) inp of
             Inl p \<Rightarrow> Stop (PathNotFound p) []
           | Inr env \<Rightarrow>
               (let l = \<lparr>launch_state = state_id t, launch_input = inp, launch_env = env\<rparr>
                in case L t env of
                     Failed c \<Rightarrow> Stop (TaskFailed c) [l]
                   | Succeeded res \<Rightarrow>
                       (case apply_result_path (resultPath t) doc res of
                          None \<Rightarrow> Stop ResultPathMatchFailure [l]
                        | Some doc' \<Rightarrow> Next doc' l))))"

fun run_states :: "launcher \<Rightarrow> ecs_run_task list \<Rightarrow> json \<Rightarrow> launch list \<Rightarrow> execution" where
  "run_states L [] doc log = \<lparr>status = SUCCEEDED, output_doc = doc, launched = log\<rparr>"
| "run_states L (t # ts) doc log =
     (case run_task L t doc of
        Stop c ls \<Rightarrow> \<lparr>status = FAILED (state_id t) c, output_doc = doc, launched = log @ ls\<rparr>
      | Next doc' l \<Rightarrow> run_states L ts doc' (log @ [l]))"

definition start_execution :: "state_machine \<Rightarrow> launcher \<Rightarrow> json \<Rightarrow> execution" where
  "start_execution sm L doc = run_states L (sm_definition sm) doc []"

text \<open>
  The document with which the execution reaches position \<open>i\<close> of the chain:
  \<open>None\<close> when it stopped at an earlier state.
\<close>

fun document_at :: "launcher \<Rightarrow> ecs_run_task list \<Rightarrow> json \<Rightarrow> nat \<Rightarrow> json option" where
  "document_at L ts doc 0 = Some doc"
| "document_at L [] doc (Suc i) = None"
| "document_at L (t # ts) doc (Suc i) =
     (case run_task L t doc of
        Stop c ls \<Rightarrow> None
      | Next doc' l \<Rightarrow> document_at L ts doc' i)"

text \<open>A state written as all five of the source are: \<open>inputPath: '$'\<close>, \<open>resultPath: DISCARD\<close>.\<close>

definition passes_input_unchanged :: "ecs_run_task \<Rightarrow> bool" where
  "passes_input_unchanged t \<longleftrightarrow> inputPath t = Root \<and> resultPath t = DISCARD"

subsection \<open>Keys a state reads, and keys it is handed as output locations\<close>

text \<open>
  The source declares a state's keys only through its environment overrides. Every
  override whose variable is named \<open>S3_OUTPUT...\<close> carries the location the job is to
  write to; the others carry what the job reads.
\<close>

definition is_output_variable :: "string \<Rightarrow> bool" where
  "is_output_variable n \<longleftrightarrow> take 9 n = ''S3_OUTPUT''"

fun path_keys :: "json_path \<Rightarrow> string list" where
  "path_keys Root = []"
| "path_keys (Field k) = [k]"

definition declared_outputs :: "ecs_run_task \<Rightarrow> string list" where
  "declared_outputs t =
     concat (map (\<lambda>(n, p). path_keys p) (filter (\<lambda>(n, p). is_output_variable n) (environment t)))"

definition required_inputs :: "ecs_run_task \<Rightarrow> string list" where
  "required_inputs t =
     concat (map (\<lambda>(n, p). path_keys p) (filter (\<lambda>(n, p). \<not> is_output_variable n) (environment t)))"

fun object_keys :: "json \<Rightarrow> string list" where
  "object_keys (JObject kvs) = map fst kvs"
| "object_keys (JString s) = []"

subsection \<open>The Chain Compiler as the specification words it\<close>

text \<open>
  The source builds its chain with \<open>Chain.start\<close> and \<open>next\<close> and checks no key. For
  comparison, this is the walk the specification describes: a running list of available
  keys seeded from the initial Context; each stage's required keys are looked up in it,
  then the stage's declared output keys are added.
\<close>

datatype validation_error = MissingInput string string

fun spec_chain_compiler ::
  "string list \<Rightarrow> ecs_run_task list \<Rightarrow> validation_error + ecs_run_task list" where
  "spec_chain_compiler avail [] = Inr []"
| "spec_chain_compiler avail (t # ts) =
     (case find (\<lambda>k. k \<notin> set avail) (required_inputs t) of
        Some k \<Rightarrow> Inl (MissingInput (state_id t) k)
      | None \<Rightarrow>
          (case spec_chain_compiler (avail @ declared_outputs t) ts of
             Inl e \<Rightarrow> Inl e
           | Inr plan \<Rightarrow> Inr (t # plan)))"

subsection \<open>Documents and launchers used as concrete inputs\<close>

text \<open>The initial Context of the specification's end-to-end scenario.\<close>

definition initial_context :: json where
  "initial_context = JObject
     [(''S3Input'', JString ''a''),
      (''S3OutputFirst'', JString []),
      (''S3OutputSecond'', JString []),
      (''S3OutputSchema1'', JString []),
      (''S3OutputSchema2'', JString []),
      (''S3OutputDupRank'', JString []),
      (''S3OutputTableDesc'', JString []),
      (''TableName'', JString ''mytable''),
      (''S3InputDQDL'', JString ''x''),
      (''S3OutputDQDL'', JString [])]"

text \<open>The same submission without its \<open>TableName\<close>.\<close>

definition context_without_table :: json where
  "context_without_table = JObject
     [(''S3Input'', JString ''a''),
      (''S3OutputFirst'', JString []),
      (''S3OutputSecond'', JString []),
      (''S3OutputSchema1'', JString []),
      (''S3OutputSchema2'', JString []),
      (''S3OutputDupRank'', JString []),
      (''S3OutputTableDesc'', JString []),
      (''S3InputDQDL'', JString ''x''),
      (''S3OutputDQDL'', JString [])]"

text \<open>A launcher whose jobs all succeed and report no output at all.\<close>

definition silent_launcher :: launcher where
  "silent_launcher t env = Succeeded (JObject [])"

text \<open>A launcher whose jobs all succeed and report a value for every output location.\<close>

definition reporting_launcher :: launcher where
  "reporting_launcher t env =
     Succeeded (JObject (map (\<lambda>k. (k, JString ''written'')) (declared_outputs t)))"

text \<open>A launcher whose third job, the inspection, fails.\<close>

definition inspect_failing_launcher :: launcher where
  "inspect_failing_launcher t env =
     (if state_id t = ''RunInspectTask'' then Failed ''exit 1'' else Succeeded (JObject []))"

subsection \<open>The bootstrap resource\<close>

text \<open>
  Modelled from the spec: the lifecycle states of the search index (BootstrapResource).
  The source declares the index only as a custom resource whose handler is the Lambda
  function \<open>lambda_function.on_event\<close> under \<open>lambda/ossetup\<close>; the handler's code is not
  among the sources.
\<close>

datatype resource_state = absent | creating | ready | failed | deleting

text \<open>
  The containers of the duplicate-detection and curation jobs are pointed at the index
  through \<open>OSS_INDEX_NAME\<close>; no state of the chain mentions the custom resource.
\<close>

definition references_index :: "ecs_run_task \<Rightarrow> bool" where
  "references_index t \<longleftrightarrow>
     map_of (container_environment (containerDefinition t)) ''OSS_INDEX_NAME'' \<noteq> None"

text \<open>
  A launcher for a deployment whose index is in state \<open>rs\<close>: a job pointed at the index
  fails unless the index is ready.
\<close>

definition index_launcher :: "resource_state \<Rightarrow> launcher" where
  "index_launcher rs t env =
     (if references_index t \<and> rs \<noteq> ready then Failed ''index_not_found''
      else Succeeded (JObject []))"

text \<open>
  Modelled from the spec: the events, outcomes and search-service contract of the
  Bootstrap Handler (\<open>apply(event: Create|Update|Delete) -> Outcome\<close>, \<open>createIndex\<close>,
  \<open>indexExists\<close>, \<open>deleteIndex\<close>). The handler itself is the Lambda function
  \<open>lambda_function.on_event\<close> of \<open>lambda/ossetup\<close>, which is not among the sources.
\<close>

datatype event = Create | Update | Delete

datatype outcome = Success | Failure | InProgress

datatype reply = Ack | Error

record search_index_service =
  createIndex :: "string \<Rightarrow> reply"
  indexExists :: "string \<Rightarrow> bool"
  deleteIndex :: "string \<Rightarrow> reply"

record bootstrap_resource =
  index_name :: string
  lifecycle :: resource_state
  creation_calls :: nat

text \<open>
  Modelled from the spec: the Bootstrap Handler's \<open>apply\<close> (the Lambda handler
  \<open>lambda_function.on_event\<close> of \<open>lambda/ossetup\<close> is not among the sources). On
  \<open>Create\<close> of an absent resource the creation call is issued to the search service and
  the resource becomes ready on acknowledgment, failed on error (the state \<open>creating\<close>
  lies between the call and its reply); on \<open>Create\<close> of a ready resource \<open>Success\<close> is
  reported with no side effect. The result is \<open>None\<close> where the specification fixes no
  sequential behaviour: \<open>Create\<close> in the other states, \<open>Update\<close>, and \<open>Delete\<close>, whose
  resulting state it leaves open.
\<close>

fun apply_event ::
  "search_index_service \<Rightarrow> event \<Rightarrow> bootstrap_resource \<Rightarrow> (outcome \<times> bootstrap_resource) option" where
  "apply_event svc Create b =
     (case lifecycle b of
        absent \<Rightarrow>
          (case createIndex svc (index_name b) of
             Ack \<Rightarrow>
               Some (Success, b\<lparr>lifecycle := ready, creation_calls := Suc (creation_calls b)\<rparr>)
           | Error \<Rightarrow>
               Some (Failure, b\<lparr>lifecycle := failed, creation_calls := Suc (creation_calls b)\<rparr>))
      | ready \<Rightarrow> Some (Success, b)
      | creating \<Rightarrow> None
      | failed \<Rightarrow> None
      | deleting \<Rightarrow> None)"
| "apply_event svc Update b = None"
| "apply_event svc Delete b = None"

text \<open>Invocations one after the other, each on the resource the one before left.\<close>

fun apply_events ::
  "search_index_service \<Rightarrow> event list \<Rightarrow> bootstrap_resource \<Rightarrow>
     (outcome list \<times> bootstrap_resource) option" where
  "apply_events svc [] b = Some ([], b)"
| "apply_events svc (e # es) b =
     (case apply_event svc e b of
        None \<Rightarrow> None
      | Some (r, b') \<Rightarrow>
          (case apply_events svc es b' of
             None \<Rightarrow> None
           | Some (rs, b'') \<Rightarrow> Some (r # rs, b'')))"

definition acknowledging_service :: search_index_service where
  "acknowledging_service =
     \<lparr>createIndex = (\<lambda>n. Ack), indexExists = (\<lambda>n. False), deleteIndex = (\<lambda>n. Ack)\<rparr>"

definition embeddings_index :: "resource_state \<Rightarrow> bootstrap_resource" where
  "embeddings_index rs = \<lparr>index_name = ''embeddings'', lifecycle = rs, creation_calls = 0\<rparr>"

subsection \<open>The Context\<close>

text \<open>
  Modelled from the spec: the Context, an ordered mapping from string keys to string
  values. The source has no Context of its own: its states read keys of the execution's
  JSON document through \<open>JsonPath.stringAt\<close> and write none.
\<close>

type_synonym pipeline_context = "(string \<times> string) list"

datatype lookup = Found string | NotFound

text \<open>
  Modelled from the spec: \<open>get(key) -> value | NotFound\<close>, an operation of the Context
  that the source does not have.
\<close>

definition context_get :: "pipeline_context \<Rightarrow> string \<Rightarrow> lookup" where
  "context_get c k = (case map_of c k of Some v \<Rightarrow> Found v | None \<Rightarrow> NotFound)"

text \<open>
  Modelled from the spec: \<open>with(key, value) -> new Context\<close>, the functional update of
  the Context, which the source does not have. The key keeps its place in the order when
  it is already there and is appended otherwise.
\<close>

definition context_with :: "pipeline_context \<Rightarrow> string \<Rightarrow> string \<Rightarrow> pipeline_context" where
  "context_with c k v = AList.update k v c"

section \<open>Properties\<close>


lemma wf_chain_states:
  "wf_chain = [runSubsamplerTaskFirstPass, runSubsamplerTaskSecondPass, runInspectTask,
               runDupdetectTask, runCuratorTask]"
  by (simp add: wf_chain_def chain_next_def chain_start_def)

lemma run_states_log:
  "status (run_states L ts doc log) = status (run_states L ts doc []) \<and>
   output_doc (run_states L ts doc log) = output_doc (run_states L ts doc []) \<and>
   launched (run_states L ts doc log) = log @ launched (run_states L ts doc [])"
proof (induction ts arbitrary: doc log)
  case Nil
  show ?case by simp
next
  case (Cons t ts)
  show ?case
  proof (cases "run_task L t doc")
    case (Stop c ls)
    then show ?thesis by simp
  next
    case (Next d l)
    from Cons.IH [of d "log @ [l]"] Cons.IH [of d "[l]"] Next show ?thesis by simp
  qed
qed

lemma run_task_Next_state:
  "run_task L t doc = Next d l \<Longrightarrow> launch_state l = state_id t"
  by (auto simp: run_task_def Let_def split: option.splits sum.splits task_result.splits)

lemma run_task_Stop_states:
  "run_task L t doc = Stop c ls \<Longrightarrow> ls = [] \<or> (\<exists>l. ls = [l] \<and> launch_state l = state_id t)"
  by (auto simp: run_task_def Let_def split: option.splits sum.splits task_result.splits)

lemma run_states_stops_at:
  "i < length ts \<Longrightarrow> document_at L ts doc i = Some d \<Longrightarrow> run_task L (ts ! i) d = Stop c ls \<Longrightarrow>
     status (run_states L ts doc []) = FAILED (state_id (ts ! i)) c \<and>
     output_doc (run_states L ts doc []) = d \<and>
     map launch_state (launched (run_states L ts doc [])) =
       map state_id (take i ts) @ map launch_state ls"
proof (induction ts arbitrary: i doc)
  case Nil
  then show ?case by simp
next
  case (Cons t ts)
  show ?case
  proof (cases i)
    case 0
    with Cons.prems show ?thesis by simp
  next
    case (Suc j)
    with Cons.prems obtain d' l where step: "run_task L t doc = Next d' l"
      and at: "document_at L ts d' j = Some d"
      by (auto split: step.splits)
    from Cons.prems Suc have j: "j < length ts" and stop: "run_task L (ts ! j) d = Stop c ls"
      by simp_all
    note ih = Cons.IH [OF j at stop]
    from run_states_log [of L ts d' "[l]"] ih step Suc run_task_Next_state [OF step]
    show ?thesis by simp
  qed
qed


lemmas state_defs =
  runSubsamplerTaskFirstPass_def runSubsamplerTaskSecondPass_def runInspectTask_def
  runDupdetectTask_def runCuratorTask_def

lemmas container_defs =
  subsamplerContainer_def inspectContainer_def dupdetectContainer_def curatorContainer_def

lemma wf_chain_unchanged: "list_all passes_input_unchanged wf_chain"
  by (simp add: wf_chain_states passes_input_unchanged_def state_defs)

lemma run_task_unchanged_Next:
  "passes_input_unchanged t \<Longrightarrow> run_task L t doc = Next d l \<Longrightarrow> d = doc \<and> launch_input l = doc"
  by (auto simp: run_task_def passes_input_unchanged_def Let_def
           split: option.splits sum.splits task_result.splits)

lemma run_task_unchanged_Stop:
  "passes_input_unchanged t \<Longrightarrow> run_task L t doc = Stop c ls \<Longrightarrow> l \<in> set ls \<Longrightarrow>
     launch_input l = doc"
  by (auto simp: run_task_def passes_input_unchanged_def Let_def
           split: option.splits sum.splits task_result.splits)

lemma run_states_unchanged:
  "list_all passes_input_unchanged ts \<Longrightarrow> (\<forall>l \<in> set log. launch_input l = doc) \<Longrightarrow>
     output_doc (run_states L ts doc log) = doc \<and>
     (\<forall>l \<in> set (launched (run_states L ts doc log)). launch_input l = doc)"
proof (induction ts arbitrary: log)
  case Nil
  then show ?case by simp
next
  case (Cons t ts)
  from Cons.prems have t: "passes_input_unchanged t" and ts: "list_all passes_input_unchanged ts"
    by simp_all
  show ?case
  proof (cases "run_task L t doc")
    case (Stop c ls)
    with t Cons.prems(2) show ?thesis
      by (auto dest: run_task_unchanged_Stop)
  next
    case (Next d l)
    with t have d: "d = doc" and l: "launch_input l = doc"
      using run_task_unchanged_Next by blast+
    have "\<forall>l' \<in> set (log @ [l]). launch_input l' = doc"
      using Cons.prems(2) l by auto
    from Cons.IH [OF ts this] Next d show ?thesis by simp
  qed
qed

lemma run_task_succeeds:
  "passes_input_unchanged t \<Longrightarrow> resolve_environment (environment t) doc = Inr env \<Longrightarrow>
     L t env = Succeeded res \<Longrightarrow>
     run_task L t doc = Next doc \<lparr>launch_state = state_id t, launch_input = doc, launch_env = env\<rparr>"
  by (simp add: run_task_def passes_input_unchanged_def)

lemma run_states_all_succeed:
  "list_all passes_input_unchanged ts \<Longrightarrow>
   (\<forall>t \<in> set ts. \<exists>env. resolve_environment (environment t) doc = Inr env) \<Longrightarrow>
   (\<forall>t env. \<exists>res. L t env = Succeeded res) \<Longrightarrow>
     status (run_states L ts doc []) = SUCCEEDED \<and>
     output_doc (run_states L ts doc []) = doc \<and>
     map launch_state (launched (run_states L ts doc [])) = map state_id ts"
proof (induction ts)
  case Nil
  show ?case by simp
next
  case (Cons t ts)
  from Cons.prems obtain env where env: "resolve_environment (environment t) doc = Inr env"
    by auto
  from Cons.prems(3) obtain res where res: "L t env = Succeeded res"
    by blast
  from Cons.prems have t: "passes_input_unchanged t"
    by simp
  have step: "run_task L t doc =
      Next doc \<lparr>launch_state = state_id t, launch_input = doc, launch_env = env\<rparr>"
    using t env res by (rule run_task_succeeds)
  from Cons.prems have "status (run_states L ts doc []) = SUCCEEDED \<and>
     output_doc (run_states L ts doc []) = doc \<and>
     map launch_state (launched (run_states L ts doc [])) = map state_id ts"
    by (intro Cons.IH) simp_all
  with step run_states_log [of L ts doc "[\<lparr>launch_state = state_id t, launch_input = doc, launch_env = env\<rparr>]"]
  show ?case by simp
qed

lemma initial_context_resolves:
  "\<forall>t \<in> set wf_chain. \<exists>env. resolve_environment (environment t) initial_context = Inr env"
  by (simp add: wf_chain_states state_defs initial_context_def)


subsection \<open>Chain construction and missing keys\<close>

lemma sfnInspector_input_paths:
  "i < length (sm_definition sfnInspector) \<Longrightarrow> inputPath (sm_definition sfnInspector ! i) = Root"
  using wf_chain_unchanged
  by (simp add: sfnInspector_def list_all_length passes_input_unchanged_def)

text \<open>
  Claim C1, as the code has it. The source builds one fixed chain of five stages and
  looks at no key when it does: the state machine holds that plan whatever the
  submitted document contains. A key that a stage reads and that is absent from the
  document is found only when the run reaches that stage: the run ends \<open>FAILED\<close>
  naming the stage and the absent path, the stage's job is not launched, and the jobs
  of all the stages before it have been.
\<close>

theorem missing_key_found_when_stage_is_reached:
  assumes "i < length (sm_definition sfnInspector)"
    and "document_at L (sm_definition sfnInspector) doc i = Some d"
    and "resolve_environment (environment (sm_definition sfnInspector ! i)) d = Inl p"
    and "select_path p d = None"
  shows "sm_definition sfnInspector =
           [runSubsamplerTaskFirstPass, runSubsamplerTaskSecondPass, runInspectTask,
            runDupdetectTask, runCuratorTask] \<and>
         status (start_execution sfnInspector L doc) =
           FAILED (state_id (sm_definition sfnInspector ! i)) (PathNotFound p) \<and>
         map launch_state (launched (start_execution sfnInspector L doc)) =
           map state_id (take i (sm_definition sfnInspector))"
proof -
  let ?ts = "sm_definition sfnInspector"
  have plan: "?ts = [runSubsamplerTaskFirstPass, runSubsamplerTaskSecondPass, runInspectTask,
      runDupdetectTask, runCuratorTask]"
    by (simp add: sfnInspector_def wf_chain_states)
  have "select_path (inputPath (?ts ! i)) d = Some d"
    using sfnInspector_input_paths [OF assms(1)] by simp
  then have "run_task L (?ts ! i) d = Stop (PathNotFound p) []"
    using assms(3) by (simp add: run_task_def)
  from run_states_stops_at [OF assms(1,2) this] plan show ?thesis
    by (simp add: start_execution_def)
qed

theorem missing_key_found_when_stage_is_reached_witness:
  "4 < length (sm_definition sfnInspector) \<and>
   document_at silent_launcher (sm_definition sfnInspector) context_without_table 4 =
     Some context_without_table \<and>
   resolve_environment (environment (sm_definition sfnInspector ! 4)) context_without_table =
     Inl (Field ''TableName'') \<and>
   select_path (Field ''TableName'') context_without_table = None \<and>
   status (start_execution sfnInspector silent_launcher context_without_table) =
     FAILED ''RunCuratorTask'' (PathNotFound (Field ''TableName'')) \<and>
   map launch_state (launched (start_execution sfnInspector silent_launcher context_without_table)) =
     [''SubsamplerFirstPass'', ''SubsamplerSecondPass'', ''RunInspectTask'', ''RunDupdetectTask'']"
proof -
  have h1: "4 < length (sm_definition sfnInspector)"
    by (simp add: sfnInspector_def wf_chain_states)
  have h2: "document_at silent_launcher (sm_definition sfnInspector) context_without_table 4 =
      Some context_without_table"
    by (simp add: sfnInspector_def wf_chain_states state_defs run_task_def silent_launcher_def
        context_without_table_def eval_nat_numeral)
  have h3: "resolve_environment (environment (sm_definition sfnInspector ! 4))
      context_without_table = Inl (Field ''TableName'')"
    by (simp add: sfnInspector_def wf_chain_states state_defs context_without_table_def)
  have h4: "select_path (Field ''TableName'') context_without_table = None"
    by (simp add: context_without_table_def)
  from missing_key_found_when_stage_is_reached [OF h1 h2 h3 h4] h1 h2 h3 h4
  show ?thesis by (simp add: sfnInspector_def wf_chain_states state_defs)
qed

text \<open>
  Claim C1 as stated fails. For a submission without \<open>TableName\<close> the walk of the
  specification rejects the ordering with \<open>MissingInput\<close> at the curation stage, yet the
  state machine holds the five-stage chain and its execution launches four jobs before
  it fails at that stage.
\<close>

theorem chain_built_where_compiler_rejects:
  "spec_chain_compiler (object_keys context_without_table) wf_chain =
     Inl (MissingInput ''RunCuratorTask'' ''TableName'') \<and>
   sm_definition sfnInspector =
     [runSubsamplerTaskFirstPass, runSubsamplerTaskSecondPass, runInspectTask,
      runDupdetectTask, runCuratorTask] \<and>
   status (start_execution sfnInspector silent_launcher context_without_table) =
     FAILED ''RunCuratorTask'' (PathNotFound (Field ''TableName'')) \<and>
   map launch_state (launched (start_execution sfnInspector silent_launcher context_without_table)) =
     [''SubsamplerFirstPass'', ''SubsamplerSecondPass'', ''RunInspectTask'', ''RunDupdetectTask'']"
  by (simp add: start_execution_def sfnInspector_def wf_chain_states state_defs run_task_def
      silent_launcher_def context_without_table_def required_inputs_def declared_outputs_def
      is_output_variable_def)

subsection \<open>Fail-fast\<close>

text \<open>
  Claim C2. If the run reaches the stage at position \<open>i\<close> and that stage stops it for
  cause \<open>c\<close>, the execution is \<open>FAILED\<close> naming that stage and \<open>c\<close>, and the jobs
  launched are those of a prefix of the plan no longer than \<open>i + 1\<close>: no stage at a
  later position is launched.
\<close>

theorem failed_stage_ends_the_run:
  assumes "i < length ts"
    and "document_at L ts doc i = Some d"
    and "run_task L (ts ! i) d = Stop c ls"
  shows "status (run_states L ts doc []) = FAILED (state_id (ts ! i)) c \<and>
         length (launched (run_states L ts doc [])) \<le> Suc i \<and>
         map launch_state (launched (run_states L ts doc [])) =
           map state_id (take (length (launched (run_states L ts doc []))) ts)"
proof -
  let ?r = "run_states L ts doc []"
  from run_states_stops_at [OF assms]
  have st: "status ?r = FAILED (state_id (ts ! i)) c"
    and la: "map launch_state (launched ?r) = map state_id (take i ts) @ map launch_state ls"
    by simp_all
  from la have len: "length (launched ?r) = i + length ls"
    using assms(1) by (metis length_append length_map length_take min.absorb2 less_imp_le_nat)
  from run_task_Stop_states [OF assms(3)]
  have "map launch_state ls = map state_id (take (length ls) (drop i ts))"
  proof
    assume "ls = []" then show ?thesis by simp
  next
    assume "\<exists>l. ls = [l] \<and> launch_state l = state_id (ts ! i)"
    then obtain l where "ls = [l]" "launch_state l = state_id (ts ! i)" by blast
    moreover have "take 1 (drop i ts) = [ts ! i]"
      using assms(1) by (simp add: Cons_nth_drop_Suc [symmetric])
    ultimately show ?thesis by simp
  qed
  then have "map launch_state (launched ?r) = map state_id (take (i + length ls) ts)"
    using la by (simp add: take_add)
  moreover have "length ls \<le> 1"
    using run_task_Stop_states [OF assms(3)] by auto
  ultimately show ?thesis using st len by simp
qed

theorem failed_stage_ends_the_run_witness:
  "2 < length wf_chain \<and>
   document_at inspect_failing_launcher wf_chain initial_context 2 = Some initial_context \<and>
   run_task inspect_failing_launcher (wf_chain ! 2) initial_context =
     Stop (TaskFailed ''exit 1'')
       [\<lparr>launch_state = ''RunInspectTask'', launch_input = initial_context,
         launch_env = [(''S3_INPUT_1'', []), (''S3_INPUT_2'', []),
                       (''S3_OUTPUT_1'', []), (''S3_OUTPUT_2'', [])]\<rparr>] \<and>
   status (run_states inspect_failing_launcher wf_chain initial_context []) =
     FAILED ''RunInspectTask'' (TaskFailed ''exit 1'') \<and>
   length (launched (run_states inspect_failing_launcher wf_chain initial_context [])) \<le> 3 \<and>
   map launch_state (launched (run_states inspect_failing_launcher wf_chain initial_context [])) =
     [''SubsamplerFirstPass'', ''SubsamplerSecondPass'', ''RunInspectTask'']"
proof -
  have h1: "2 < length wf_chain"
    by (simp add: wf_chain_states)
  have h2: "document_at inspect_failing_launcher wf_chain initial_context 2 =
      Some initial_context"
    by (simp add: wf_chain_states state_defs run_task_def inspect_failing_launcher_def
        initial_context_def eval_nat_numeral)
  have h3: "run_task inspect_failing_launcher (wf_chain ! 2) initial_context =
     Stop (TaskFailed ''exit 1'')
       [\<lparr>launch_state = ''RunInspectTask'', launch_input = initial_context,
         launch_env = [(''S3_INPUT_1'', []), (''S3_INPUT_2'', []),
                       (''S3_OUTPUT_1'', []), (''S3_OUTPUT_2'', [])]\<rparr>]"
    by (simp add: wf_chain_states state_defs run_task_def inspect_failing_launcher_def
        initial_context_def)
  have h4: "map launch_state
      (launched (run_states inspect_failing_launcher wf_chain initial_context [])) =
     [''SubsamplerFirstPass'', ''SubsamplerSecondPass'', ''RunInspectTask'']"
    by (simp add: wf_chain_states state_defs run_task_def inspect_failing_launcher_def
        initial_context_def)
  from failed_stage_ends_the_run [OF h1 h2 h3] h1 h2 h3 h4
  show ?thesis by (simp add: wf_chain_states state_defs)
qed


subsection \<open>Reported outputs\<close>

text \<open>
  Claim C5, as the code has it. A stage whose result path is \<open>DISCARD\<close>, as every
  stage of the source is, and whose job the launcher reports \<open>Succeeded\<close> is not
  failed, whatever outputs are reported and so also when they lack the stage's output
  keys. The result is dropped: the run goes on with the stages that remain, on the
  document unchanged, and when no stage remains it is \<open>SUCCEEDED\<close>.
\<close>

theorem succeeded_stage_is_not_failed_for_its_outputs:
  assumes "resultPath t = DISCARD"
    and "select_path (inputPath t) doc = Some inp"
    and "resolve_environment (environment t) inp = Inr env"
    and "L t env = Succeeded res"
  shows "run_task L t doc =
           Next doc \<lparr>launch_state = state_id t, launch_input = inp, launch_env = env\<rparr> \<and>
         run_states L (t # ts) doc log =
           run_states L ts doc
             (log @ [\<lparr>launch_state = state_id t, launch_input = inp, launch_env = env\<rparr>]) \<and>
         status (run_states L [t] doc log) = SUCCEEDED"
proof -
  have step: "run_task L t doc =
      Next doc \<lparr>launch_state = state_id t, launch_input = inp, launch_env = env\<rparr>"
    using assms by (simp add: run_task_def)
  then show ?thesis by simp
qed

theorem succeeded_stage_is_not_failed_for_its_outputs_witness:
  "resultPath runCuratorTask = DISCARD \<and>
   select_path (inputPath runCuratorTask) initial_context = Some initial_context \<and>
   resolve_environment (environment runCuratorTask) initial_context =
     Inr [(''S3_INPUT_DATA'', ''a''), (''S3_INPUT_SCHEMA'', []), (''S3_INPUT_DESC'', []),
          (''S3_INPUT_DQDL'', ''x''), (''S3_OUTPUT_DQDL'', []), (''TABLE_NAME'', ''mytable'')] \<and>
   silent_launcher runCuratorTask
     [(''S3_INPUT_DATA'', ''a''), (''S3_INPUT_SCHEMA'', []), (''S3_INPUT_DESC'', []),
      (''S3_INPUT_DQDL'', ''x''), (''S3_OUTPUT_DQDL'', []), (''TABLE_NAME'', ''mytable'')] =
     Succeeded (JObject []) \<and>
   declared_outputs runCuratorTask = [''S3OutputDQDL''] \<and>
   ''S3OutputDQDL'' \<notin> set (object_keys (JObject [])) \<and>
   status (run_states silent_launcher [runCuratorTask] initial_context []) = SUCCEEDED"
proof -
  let ?env = "[(''S3_INPUT_DATA'', ''a''), (''S3_INPUT_SCHEMA'', []), (''S3_INPUT_DESC'', []),
      (''S3_INPUT_DQDL'', ''x''), (''S3_OUTPUT_DQDL'', []), (''TABLE_NAME'', ''mytable'')]"
  have h1: "resultPath runCuratorTask = DISCARD"
    by (simp add: runCuratorTask_def)
  have h2: "select_path (inputPath runCuratorTask) initial_context = Some initial_context"
    by (simp add: runCuratorTask_def)
  have h3: "resolve_environment (environment runCuratorTask) initial_context = Inr ?env"
    by (simp add: runCuratorTask_def initial_context_def)
  have h4: "silent_launcher runCuratorTask ?env = Succeeded (JObject [])"
    by (simp add: silent_launcher_def)
  have h5: "declared_outputs runCuratorTask = [''S3OutputDQDL'']"
    by (simp add: runCuratorTask_def declared_outputs_def is_output_variable_def)
  have h6: "''S3OutputDQDL'' \<notin> set (object_keys (JObject []))"
    by simp
  from succeeded_stage_is_not_failed_for_its_outputs
         [where t = runCuratorTask and doc = initial_context and inp = initial_context
            and env = ?env and L = silent_launcher and res = "JObject []"
            and ts = "[]" and log = "[]", OF h1 h2 h3 h4]
  have "status (run_states silent_launcher [runCuratorTask] initial_context []) = SUCCEEDED"
    by (rule conjunct2 [THEN conjunct2])
  with h1 h2 h3 h4 h5 h6 show ?thesis by (intro conjI)
qed

text \<open>
  Claim C5 as stated fails. The first job is reported \<open>Succeeded\<close> with no output at
  all, so without the \<open>S3OutputFirst\<close> it is handed as its output location; the run is
  not failed for it: all five jobs are launched and the execution is \<open>SUCCEEDED\<close>.
\<close>

theorem omitted_outputs_run_succeeds:
  "silent_launcher runSubsamplerTaskFirstPass [(''S3_INPUT'', ''a''), (''S3_OUTPUT'', [])] =
     Succeeded (JObject []) \<and>
   declared_outputs runSubsamplerTaskFirstPass = [''S3OutputFirst''] \<and>
   ''S3OutputFirst'' \<notin> set (object_keys (JObject [])) \<and>
   status (start_execution sfnInspector silent_launcher initial_context) = SUCCEEDED \<and>
   map launch_state (launched (start_execution sfnInspector silent_launcher initial_context)) =
     [''SubsamplerFirstPass'', ''SubsamplerSecondPass'', ''RunInspectTask'',
      ''RunDupdetectTask'', ''RunCuratorTask'']"
  by (simp add: start_execution_def sfnInspector_def wf_chain_states state_defs run_task_def
      silent_launcher_def initial_context_def declared_outputs_def is_output_variable_def)

subsection \<open>The end-to-end scenario\<close>

text \<open>
  Claim C6, as the code has it. For the initial Context of the scenario, if every job
  succeeds then the execution is \<open>SUCCEEDED\<close>, all five jobs have been launched in
  order, and the terminal document is the initial Context itself: every key, the
  initially empty output keys among them, keeps the value that was submitted.
\<close>

theorem all_success_returns_the_submission:
  assumes "\<forall>t env. \<exists>res. L t env = Succeeded res"
  shows "status (start_execution sfnInspector L initial_context) = SUCCEEDED \<and>
         output_doc (start_execution sfnInspector L initial_context) = initial_context \<and>
         map launch_state (launched (start_execution sfnInspector L initial_context)) =
           [''SubsamplerFirstPass'', ''SubsamplerSecondPass'', ''RunInspectTask'',
            ''RunDupdetectTask'', ''RunCuratorTask'']"
proof -
  have "map state_id wf_chain =
      [''SubsamplerFirstPass'', ''SubsamplerSecondPass'', ''RunInspectTask'',
       ''RunDupdetectTask'', ''RunCuratorTask'']"
    by (simp add: wf_chain_states state_defs)
  with run_states_all_succeed [OF wf_chain_unchanged initial_context_resolves assms]
  show ?thesis by (simp add: start_execution_def sfnInspector_def)
qed

theorem all_success_returns_the_submission_witness:
  "(\<forall>t env. \<exists>res. reporting_launcher t env = Succeeded res) \<and>
   status (start_execution sfnInspector reporting_launcher initial_context) = SUCCEEDED \<and>
   output_doc (start_execution sfnInspector reporting_launcher initial_context) = initial_context"
proof -
  have h: "\<forall>t env. \<exists>res. reporting_launcher t env = Succeeded res"
    by (simp add: reporting_launcher_def)
  from all_success_returns_the_submission [OF h] h show ?thesis by simp
qed

text \<open>
  Claim C6 as stated fails. Every job succeeds and reports a value for each of its
  output keys; the execution is \<open>SUCCEEDED\<close>, and in its terminal document each of the
  seven initially empty output keys is still the empty string.
\<close>

theorem output_keys_stay_empty:
  "reporting_launcher runSubsamplerTaskFirstPass [(''S3_INPUT'', ''a''), (''S3_OUTPUT'', [])] =
     Succeeded (JObject [(''S3OutputFirst'', JString ''written'')]) \<and>
   status (start_execution sfnInspector reporting_launcher initial_context) = SUCCEEDED \<and>
   map (\<lambda>k. stringAt (Field k)
          (output_doc (start_execution sfnInspector reporting_launcher initial_context)))
       [''S3OutputFirst'', ''S3OutputSecond'', ''S3OutputSchema1'', ''S3OutputSchema2'',
        ''S3OutputDupRank'', ''S3OutputTableDesc'', ''S3OutputDQDL''] =
     [Some [], Some [], Some [], Some [], Some [], Some [], Some []]"
  by (simp add: start_execution_def sfnInspector_def wf_chain_states state_defs run_task_def
      reporting_launcher_def initial_context_def declared_outputs_def is_output_variable_def)

subsection \<open>The bootstrap resource and the submission\<close>

text \<open>
  Claim C8, as the code has it. A submission is never turned away on account of the
  bootstrap resource. Whatever the state of the index and however the jobs depend on it,
  the execution starts: once \<open>S3Input\<close> and \<open>S3OutputFirst\<close> resolve in the submitted
  document the first job launched is the first subsampling pass. The states whose
  containers are pointed at the index are the fourth and the fifth of the chain, so a
  job that fails for want of the index fails the run mid-chain.
\<close>

theorem submission_is_not_gated_on_the_index:
  assumes "stringAt (Field ''S3Input'') doc = Some a"
    and "stringAt (Field ''S3OutputFirst'') doc = Some b"
  shows "(\<exists>ls. launched (start_execution sfnInspector (W rs) doc) =
            \<lparr>launch_state = ''SubsamplerFirstPass'', launch_input = doc,
             launch_env = [(''S3_INPUT'', a), (''S3_OUTPUT'', b)]\<rparr> # ls) \<and>
         map references_index (sm_definition sfnInspector) = [False, False, False, True, True]"
proof -
  let ?l = "\<lparr>launch_state = ''SubsamplerFirstPass'', launch_input = doc,
             launch_env = [(''S3_INPUT'', a), (''S3_OUTPUT'', b)]\<rparr>"
  let ?rest = "[runSubsamplerTaskSecondPass, runInspectTask, runDupdetectTask, runCuratorTask]"
  have refs: "map references_index (sm_definition sfnInspector) = [False, False, False, True, True]"
    by (simp add: sfnInspector_def wf_chain_states state_defs container_defs references_index_def)
  have env: "resolve_environment (environment runSubsamplerTaskFirstPass) doc =
      Inr [(''S3_INPUT'', a), (''S3_OUTPUT'', b)]"
    using assms by (simp add: runSubsamplerTaskFirstPass_def)
  have "\<exists>ls. launched (run_states (W rs) (runSubsamplerTaskFirstPass # ?rest) doc []) = ?l # ls"
  proof (cases "W rs runSubsamplerTaskFirstPass [(''S3_INPUT'', a), (''S3_OUTPUT'', b)]")
    case (Failed c)
    with env have "run_task (W rs) runSubsamplerTaskFirstPass doc = Stop (TaskFailed c) [?l]"
      by (simp add: run_task_def runSubsamplerTaskFirstPass_def)
    then show ?thesis by simp
  next
    case (Succeeded res)
    with env have "run_task (W rs) runSubsamplerTaskFirstPass doc = Next doc ?l"
      by (simp add: run_task_def runSubsamplerTaskFirstPass_def)
    with run_states_log [of "W rs" ?rest doc "[?l]"] show ?thesis by simp
  qed
  with refs show ?thesis
    by (simp add: start_execution_def sfnInspector_def wf_chain_states)
qed

theorem submission_is_not_gated_on_the_index_witness:
  "stringAt (Field ''S3Input'') initial_context = Some ''a'' \<and>
   stringAt (Field ''S3OutputFirst'') initial_context = Some [] \<and>
   (\<exists>ls. launched (start_execution sfnInspector (index_launcher absent) initial_context) =
      \<lparr>launch_state = ''SubsamplerFirstPass'', launch_input = initial_context,
       launch_env = [(''S3_INPUT'', ''a''), (''S3_OUTPUT'', [])]\<rparr> # ls)"
proof -
  have h1: "stringAt (Field ''S3Input'') initial_context = Some ''a''"
    by (simp add: initial_context_def)
  have h2: "stringAt (Field ''S3OutputFirst'') initial_context = Some []"
    by (simp add: initial_context_def)
  from submission_is_not_gated_on_the_index [OF h1 h2, of index_launcher absent] h1 h2
  show ?thesis by simp
qed

text \<open>
  Claim C8 as stated fails. With the index absent, so that the jobs pointed at it fail,
  the submission is accepted: three jobs run to success, the duplicate-detection job is
  launched and fails, and the run ends \<open>FAILED\<close> at the fourth stage.
\<close>

theorem run_starts_with_the_index_absent:
  "references_index runDupdetectTask \<and>
   status (start_execution sfnInspector (index_launcher absent) initial_context) =
     FAILED ''RunDupdetectTask'' (TaskFailed ''index_not_found'') \<and>
   map launch_state (launched (start_execution sfnInspector (index_launcher absent) initial_context)) =
     [''SubsamplerFirstPass'', ''SubsamplerSecondPass'', ''RunInspectTask'', ''RunDupdetectTask'']"
  by (simp add: start_execution_def sfnInspector_def wf_chain_states state_defs container_defs
      run_task_def index_launcher_def references_index_def initial_context_def)



subsection \<open>What each stage receives\<close>

text \<open>
  Claim C10. Each of the five states of the chain has \<open>inputPath: '$'\<close> and
  \<open>resultPath: DISCARD\<close>. Hence, for every launcher and every submitted document, the
  input of every job launched, the first and the later ones alike, is the submitted
  document itself, and so is the document the execution ends with: nothing a job
  reports is merged in between.
\<close>

theorem every_stage_receives_the_submission:
  "map (\<lambda>t. (inputPath t, resultPath t)) (sm_definition sfnInspector) =
     replicate 5 (Root, DISCARD) \<and>
   map launch_input (launched (start_execution sfnInspector L doc)) =
     replicate (length (launched (start_execution sfnInspector L doc))) doc \<and>
   output_doc (start_execution sfnInspector L doc) = doc"
proof -
  have decl: "map (\<lambda>t. (inputPath t, resultPath t)) (sm_definition sfnInspector) =
      replicate 5 (Root, DISCARD)"
    by (simp add: sfnInspector_def wf_chain_states state_defs eval_nat_numeral)
  from run_states_unchanged [OF wf_chain_unchanged, of "[]" doc L]
  have out: "output_doc (run_states L wf_chain doc []) = doc"
    and inp: "\<forall>l \<in> set (launched (run_states L wf_chain doc [])). launch_input l = doc"
    by simp_all
  from inp have "map launch_input (launched (run_states L wf_chain doc [])) =
      replicate (length (launched (run_states L wf_chain doc []))) doc"
    by (simp add: map_replicate_const [symmetric] cong: map_cong)
  with decl out show ?thesis
    by (simp add: start_execution_def sfnInspector_def)
qed

theorem every_stage_receives_the_submission_witness:
  "length (launched (start_execution sfnInspector reporting_launcher initial_context)) = 5 \<and>
   map launch_input (launched (start_execution sfnInspector reporting_launcher initial_context)) =
     [initial_context, initial_context, initial_context, initial_context, initial_context] \<and>
   output_doc (start_execution sfnInspector reporting_launcher initial_context) = initial_context"
proof -
  have len: "length (launched (start_execution sfnInspector reporting_launcher initial_context)) = 5"
    by (simp add: start_execution_def sfnInspector_def wf_chain_states state_defs run_task_def
        reporting_launcher_def initial_context_def)
  from every_stage_receives_the_submission [of reporting_launcher initial_context] len
  show ?thesis by (simp add: eval_nat_numeral)
qed


subsection \<open>Bootstrap: repeated Create\<close>

lemma create_when_ready:
  "lifecycle b = ready \<Longrightarrow> apply_event svc Create b = Some (Success, b)"
  by simp

lemma repeated_create_when_ready:
  "lifecycle b = ready \<Longrightarrow>
     apply_events svc (replicate n Create) b = Some (replicate n Success, b)"
  by (induction n) (simp_all add: create_when_ready)

text \<open>
  Claim C3. On a resource that is ready, two \<open>Create\<close> invocations in sequence both
  report \<open>Success\<close> and leave the resource, its count of creation calls included,
  exactly as it was. Over the whole life of a resource that starts absent and whose
  creation the search service acknowledges, however many \<open>Create\<close> invocations follow
  one another, all report \<open>Success\<close> and exactly one creation call is issued.
\<close>

theorem create_is_idempotent:
  "(lifecycle b = ready \<longrightarrow>
      apply_events svc [Create, Create] b = Some ([Success, Success], b)) \<and>
   (lifecycle b = absent \<and> createIndex svc (index_name b) = Ack \<longrightarrow>
      apply_events svc (replicate (Suc n) Create) b =
        Some (replicate (Suc n) Success,
              b\<lparr>lifecycle := ready, creation_calls := Suc (creation_calls b)\<rparr>))"
proof (intro conjI impI)
  assume "lifecycle b = ready"
  from repeated_create_when_ready [OF this, of svc 2]
  show "apply_events svc [Create, Create] b = Some ([Success, Success], b)"
    by (simp add: eval_nat_numeral)
next
  assume a: "lifecycle b = absent \<and> createIndex svc (index_name b) = Ack"
  let ?b = "b\<lparr>lifecycle := ready, creation_calls := Suc (creation_calls b)\<rparr>"
  from a have first: "apply_event svc Create b = Some (Success, ?b)"
    by simp
  have "lifecycle ?b = ready" by simp
  from repeated_create_when_ready [OF this, of svc n] first
  show "apply_events svc (replicate (Suc n) Create) b = Some (replicate (Suc n) Success, ?b)"
    by simp
qed

theorem create_is_idempotent_witness:
  "lifecycle (embeddings_index ready) = ready \<and>
   apply_events acknowledging_service [Create, Create] (embeddings_index ready) =
     Some ([Success, Success], embeddings_index ready) \<and>
   lifecycle (embeddings_index absent) = absent \<and>
   createIndex acknowledging_service (index_name (embeddings_index absent)) = Ack \<and>
   apply_events acknowledging_service [Create, Create, Create] (embeddings_index absent) =
     Some ([Success, Success, Success],
           \<lparr>index_name = ''embeddings'', lifecycle = ready, creation_calls = 1\<rparr>)"
proof -
  have h1: "lifecycle (embeddings_index ready) = ready"
    by (simp add: embeddings_index_def)
  have h2: "lifecycle (embeddings_index absent) = absent \<and>
      createIndex acknowledging_service (index_name (embeddings_index absent)) = Ack"
    by (simp add: embeddings_index_def acknowledging_service_def)
  from create_is_idempotent [of "embeddings_index ready" acknowledging_service 0] h1
  have a: "apply_events acknowledging_service [Create, Create] (embeddings_index ready) =
      Some ([Success, Success], embeddings_index ready)"
    by blast
  from create_is_idempotent [of "embeddings_index absent" acknowledging_service 2] h2
  have "apply_events acknowledging_service (replicate (Suc 2) Create) (embeddings_index absent) =
      Some (replicate (Suc 2) Success,
            (embeddings_index absent)\<lparr>lifecycle := ready,
               creation_calls := Suc (creation_calls (embeddings_index absent))\<rparr>)"
    by blast
  then have b: "apply_events acknowledging_service [Create, Create, Create] (embeddings_index absent) =
      Some ([Success, Success, Success],
            \<lparr>index_name = ''embeddings'', lifecycle = ready, creation_calls = 1\<rparr>)"
    by (simp add: embeddings_index_def eval_nat_numeral)
  from a b h1 h2 show ?thesis by simp
qed


subsection \<open>Context operations\<close>

lemma context_get_with_same: "context_get (context_with c k v) k = Found v"
  by (simp add: context_get_def context_with_def update_conv')

lemma context_get_with_other:
  "k' \<noteq> k \<Longrightarrow> context_get (context_with c k v) k' = context_get c k'"
  by (simp add: context_get_def context_with_def update_conv')

lemma context_with_keeps_keys: "set (map fst c) \<subseteq> set (map fst (context_with c k v))"
  by (simp add: context_with_def dom_update subset_insertI)

text \<open>
  Claim C9. For every Context \<open>c\<close>, key \<open>k\<close> and value \<open>v\<close>: in the Context that
  \<open>with\<close> returns, \<open>get\<close> of \<open>k\<close> is \<open>v\<close> and \<open>get\<close> of every other key is what it
  is in \<open>c\<close>; every key of \<open>c\<close> is still a key of the result, so that no operation
  removes a key. The update is a function of \<open>c\<close>: the caller's \<open>c\<close> is a value and
  stays what it was.
\<close>

theorem with_sets_one_key_and_keeps_the_rest:
  "context_get (context_with c k v) k = Found v \<and>
   (\<forall>k'. k' \<noteq> k \<longrightarrow> context_get (context_with c k v) k' = context_get c k') \<and>
   set (map fst c) \<subseteq> set (map fst (context_with c k v))"
proof (intro conjI allI impI)
  show "context_get (context_with c k v) k = Found v"
    by (rule context_get_with_same)
next
  fix k' :: string
  assume "k' \<noteq> k"
  then show "context_get (context_with c k v) k' = context_get c k'"
    by (rule context_get_with_other)
next
  show "set (map fst c) \<subseteq> set (map fst (context_with c k v))"
    by (rule context_with_keeps_keys)
qed

theorem with_sets_one_key_and_keeps_the_rest_witness:
  "context_get (context_with [(''S3Input'', ''a''), (''S3OutputFirst'', [])]
                  ''S3OutputFirst'' ''b'') ''S3OutputFirst'' = Found ''b'' \<and>
   ''S3Input'' \<noteq> ''S3OutputFirst'' \<and>
   context_get (context_with [(''S3Input'', ''a''), (''S3OutputFirst'', [])]
                  ''S3OutputFirst'' ''b'') ''S3Input'' =
     context_get [(''S3Input'', ''a''), (''S3OutputFirst'', [])] ''S3Input'' \<and>
   context_get [(''S3Input'', ''a''), (''S3OutputFirst'', [])] ''S3Input'' = Found ''a'' \<and>
   context_with [(''S3Input'', ''a''), (''S3OutputFirst'', [])] ''S3OutputFirst'' ''b'' =
     [(''S3Input'', ''a''), (''S3OutputFirst'', ''b'')]"
proof -
  note t = with_sets_one_key_and_keeps_the_rest
             [of "[(''S3Input'', ''a''), (''S3OutputFirst'', [])]" "''S3OutputFirst''" "''b''"]
  have h: "''S3Input'' \<noteq> ''S3OutputFirst''"
    by simp
  have g: "context_get [(''S3Input'', ''a''), (''S3OutputFirst'', [])] ''S3Input'' = Found ''a''"
    by (simp add: context_get_def)
  have w: "context_with [(''S3Input'', ''a''), (''S3OutputFirst'', [])] ''S3OutputFirst'' ''b'' =
     [(''S3Input'', ''a''), (''S3OutputFirst'', ''b'')]"
    by (simp add: context_with_def)
  note a = conjunct1 [OF t]
  note b = mp [OF spec [OF conjunct1 [OF conjunct2 [OF t]]] h]
  show ?thesis
    by (intro conjI) (rule a, rule h, rule b, rule g, rule w)
qed

end
